theory Spec2Isabelle
  imports Main "HOL-Library.Word"
begin

section \<open>The list adapter of \<^verbatim>\<open>js_list.cpp\<close>\<close>

text \<open>
  \<^verbatim>\<open>js_list.cpp\<close> exposes a \<^verbatim>\<open>realm::List\<close> to JavaScriptCore: a property
  getter and setter, the enumeration of property names, and the methods \<^verbatim>\<open>push\<close>,
  \<^verbatim>\<open>pop\<close>, \<^verbatim>\<open>unshift\<close>, \<^verbatim>\<open>shift\<close>, \<^verbatim>\<open>splice\<close> and \<^verbatim>\<open>snapshot\<close>.
  Every entry point wraps its body in \<^verbatim>\<open>try\<close>/\<^verbatim>\<open>catch\<close>. The model passes the list
  state explicitly, turns every \<^verbatim>\<open>throw\<close> into a value of type \<open>error\<close>, and every
  loop into a recursive function.
\<close>

subsection \<open>Exceptions\<close>

text \<open>
  The exceptions that reach the handlers of this file. \<open>ReadOnlyProperty\<close> is the
  \<^verbatim>\<open>std::runtime_error("The 'length' property is readonly.")\<close> thrown by
  \<^verbatim>\<open>ListSetProperty\<close> itself; the others come from the helpers and from \<^verbatim>\<open>realm::List\<close>.
\<close>

datatype error =
    OutOfRange
  | NotAnIndexKey
  | ReadOnlyProperty
  | InvalidArgumentCount
  | TypeMismatch
  | WriteOutsideTransaction
  | NotANumber

text \<open>
  The \<^verbatim>\<open>catch\<close> clauses of the property handlers select on the C++ class of the
  exception: \<^verbatim>\<open>std::out_of_range\<close> first, then \<^verbatim>\<open>std::invalid_argument\<close>, then
  \<^verbatim>\<open>std::exception\<close>.
\<close>

datatype exn_class = std_out_of_range | std_invalid_argument | std_exception

text \<open>
  Modelled from the spec: the C++ class of each exception thrown by the helpers of
  \<^verbatim>\<open>js_util.hpp\<close> and by \<^verbatim>\<open>realm::List\<close>, whose sources are not part of this file.
  An out-of-range index is the one condition the getter absorbs as \<^verbatim>\<open>undefined\<close>
  (the \<^verbatim>\<open>std::out_of_range\<close> clause), a key that is no index is the one condition
  both handlers ignore (the \<^verbatim>\<open>std::invalid_argument\<close> clause, "for stol failure" in
  the source's words), and every other condition is user-visible. The class of
  \<open>ReadOnlyProperty\<close> is the source's own: a \<^verbatim>\<open>std::runtime_error\<close> is caught by the
  \<^verbatim>\<open>std::exception\<close> clause only.
\<close>

fun class_of :: "error \<Rightarrow> exn_class" where
  "class_of OutOfRange = std_out_of_range"
| "class_of NotAnIndexKey = std_invalid_argument"
| "class_of ReadOnlyProperty = std_exception"
| "class_of InvalidArgumentCount = std_exception"
| "class_of TypeMismatch = std_exception"
| "class_of WriteOutsideTransaction = std_exception"
| "class_of NotANumber = std_exception"

subsection \<open>JavaScript values\<close>

text \<open>
  The query of a list (\<^verbatim>\<open>list->get_query()\<close>): the rows of this list, in their stored
  order.
\<close>

datatype Query = ListQuery

text \<open>
  A view over a query (\<^verbatim>\<open>realm::Results\<close>), as far as this file sees it: the query,
  the flag passed to \<^verbatim>\<open>RJSResultsCreate\<close>, and the rows the query held when the view
  was created.
\<close>

record 'a Results =
  results_query :: Query
  results_live :: bool
  results_rows :: "'a list"

text \<open>
  A \<^verbatim>\<open>JSValueRef\<close>. \<open>NULL\<close> is the null pointer (the initial \<^verbatim>\<open>returnObject\<close> of
  every method, and the "not handled" answer of the getter); \<open>JSObject r\<close> is the
  wrapper \<^verbatim>\<open>RJSObjectCreate\<close> builds around the row \<open>r\<close>; \<open>JSNumber n\<close> is a number
  whose value is the integer \<open>n\<close> (fractions, infinities and NaN are not numbers of
  the model: the only use \<^verbatim>\<open>splice\<close> makes of a number is its conversion to
  \<^verbatim>\<open>long\<close>).
\<close>

datatype 'a JSValueRef =
    NULL
  | JSUndefined
  | JSNumber int
  | JSObject 'a
  | JSArray "'a JSValueRef list"
  | JSResults "'a Results"

definition JSValueMakeUndefined :: "'a JSValueRef" where
  "JSValueMakeUndefined = JSUndefined"

definition JSValueMakeNumber :: "nat \<Rightarrow> 'a JSValueRef" where
  "JSValueMakeNumber number = JSNumber (int number)"

definition RJSObjectCreate :: "'a \<Rightarrow> 'a JSValueRef" where
  "RJSObjectCreate row = JSObject row"

subsection \<open>The underlying list\<close>

text \<open>
  The state a \<^verbatim>\<open>List *\<close> gives access to: the rows of the link list in order, and
  whether the owning Realm is in a write transaction.
\<close>

record 'a List_state =
  rows :: "'a list"
  in_write_transaction :: bool

text \<open>
  Modelled from the spec: the conversion of a host value to a stored element
  (\<^verbatim>\<open>NativeAccessor\<close>, in \<^verbatim>\<open>object_accessor.hpp\<close>): "value must be convertible to the
  list's element schema or fails with TypeMismatch". An object wrapper converts to the
  row it wraps.
\<close>

fun to_element :: "'a JSValueRef \<Rightarrow> error + 'a" where
  "to_element (JSObject row) = Inr row"
| "to_element _ = Inl TypeMismatch"

text \<open>
  Modelled from the spec: the collection primitive \<^verbatim>\<open>realm::List\<close> (\<^verbatim>\<open>list.hpp\<close>),
  "size() -> int, get(index) -> Element, set(index, value), insert(value, index),
  remove(index)". \<open>get\<close> "fails with OutOfRange if index >= size()"; \<open>set\<close> "fails with
  OutOfRange if index >= size(); fails with ... WriteOutsideTransaction if called
  without an active write transaction; value must be convertible to the list's element
  schema or fails with TypeMismatch", checked in the order of that sentence. \<open>add\<close>,
  \<open>insert\<close> and \<open>remove\<close> first require the write transaction ("if none is active, the
  underlying engine fails the call with WriteOutsideTransaction"), then a valid index
  (any index up to the size for an insertion), then a convertible value. A primitive
  that fails leaves the list as it was.
\<close>

definition List_size :: "'a List_state \<Rightarrow> nat" where
  "List_size list = length (rows list)"

definition verify_in_transaction :: "'a List_state \<Rightarrow> error + unit" where
  "verify_in_transaction list =
     (if in_write_transaction list then Inr () else Inl WriteOutsideTransaction)"

definition List_get :: "'a List_state \<Rightarrow> nat \<Rightarrow> error + 'a" where
  "List_get list index =
     (if index \<ge> length (rows list) then Inl OutOfRange else Inr (rows list ! index))"

definition List_set :: "'a List_state \<Rightarrow> 'a JSValueRef \<Rightarrow> nat \<Rightarrow> error + 'a List_state" where
  "List_set list v index =
     (if index \<ge> length (rows list) then Inl OutOfRange
      else if \<not> in_write_transaction list then Inl WriteOutsideTransaction
      else case to_element v of
             Inl e \<Rightarrow> Inl e
           | Inr row \<Rightarrow> Inr (list\<lparr>rows := (rows list)[index := row]\<rparr>))"

definition List_add :: "'a List_state \<Rightarrow> 'a JSValueRef \<Rightarrow> error + 'a List_state" where
  "List_add list v =
     (if \<not> in_write_transaction list then Inl WriteOutsideTransaction
      else case to_element v of
             Inl e \<Rightarrow> Inl e
           | Inr row \<Rightarrow> Inr (list\<lparr>rows := rows list @ [row]\<rparr>))"

definition List_insert :: "'a List_state \<Rightarrow> 'a JSValueRef \<Rightarrow> nat \<Rightarrow> error + 'a List_state" where
  "List_insert list v index =
     (if \<not> in_write_transaction list then Inl WriteOutsideTransaction
      else if index > length (rows list) then Inl OutOfRange
      else case to_element v of
             Inl e \<Rightarrow> Inl e
           | Inr row \<Rightarrow>
               Inr (list\<lparr>rows := take index (rows list) @ row # drop index (rows list)\<rparr>))"

definition List_remove :: "'a List_state \<Rightarrow> nat \<Rightarrow> error + 'a List_state" where
  "List_remove list index =
     (if \<not> in_write_transaction list then Inl WriteOutsideTransaction
      else if index \<ge> length (rows list) then Inl OutOfRange
      else Inr (list\<lparr>rows := take index (rows list) @ drop (Suc index) (rows list)\<rparr>))"

subsection \<open>Helpers of \<^verbatim>\<open>js_util.hpp\<close>\<close>

text \<open>
  Modelled from the spec: \<^verbatim>\<open>RJSValidateArgumentCount\<close> and
  \<^verbatim>\<open>RJSValidateArgumentCountIsAtLeast\<close> (\<^verbatim>\<open>js_util.hpp\<close>): a method "called with wrong
  arity" fails with \<open>InvalidArgumentCount\<close>.
\<close>

definition RJSValidateArgumentCount :: "nat \<Rightarrow> nat \<Rightarrow> error + unit" where
  "RJSValidateArgumentCount argumentCount expected =
     (if argumentCount \<noteq> expected then Inl InvalidArgumentCount else Inr ())"

definition RJSValidateArgumentCountIsAtLeast :: "nat \<Rightarrow> nat \<Rightarrow> error + unit" where
  "RJSValidateArgumentCountIsAtLeast argumentCount expected =
     (if argumentCount < expected then Inl InvalidArgumentCount else Inr ())"

text \<open>
  Modelled from the spec: \<^verbatim>\<open>RJSValidatedValueToNumber\<close> (\<^verbatim>\<open>js_util.hpp\<close>), the spec's
  \<open>numeric(arg)\<close>. A number yields its value; any other value is not a number.
\<close>

fun RJSValidatedValueToNumber :: "'a JSValueRef \<Rightarrow> error + int" where
  "RJSValidatedValueToNumber (JSNumber n) = Inr n"
| "RJSValidatedValueToNumber _ = Inl NotANumber"

subsection \<open>Index keys\<close>

definition is_digit :: "char \<Rightarrow> bool" where
  "is_digit c \<longleftrightarrow> 48 \<le> (of_char c :: nat) \<and> (of_char c :: nat) \<le> 57"

definition digit_value :: "char \<Rightarrow> nat" where
  "digit_value c = of_char c - 48"

definition digit_char :: "nat \<Rightarrow> char" where
  "digit_char d = ''0123456789'' ! d"

definition decimal_value :: "string \<Rightarrow> nat" where
  "decimal_value s = foldl (\<lambda>acc c. 10 * acc + digit_value c) 0 s"

text \<open>
  Modelled from the spec: the keys that are canonical indices, "a string matching
  \<^verbatim>\<open>^(0|[1-9][0-9]*)$\<close>".
\<close>

definition canonical_index :: "string \<Rightarrow> bool" where
  "canonical_index s \<longleftrightarrow>
     s = ''0'' \<or>
     (case s of
        [] \<Rightarrow> False
      | c # cs \<Rightarrow> is_digit c \<and> c \<noteq> CHR ''0'' \<and> list_all is_digit cs)"

text \<open>The largest value of a C++ \<^verbatim>\<open>long\<close> (64 bits).\<close>

definition LONG_MAX :: nat where
  "LONG_MAX = 2 ^ 63 - 1"

text \<open>
  Modelled from the spec: \<^verbatim>\<open>RJSValidatedPositiveIndex\<close> (\<^verbatim>\<open>js_util.hpp\<close>), the spec's
  \<open>classify\<close> on keys other than \<^verbatim>\<open>"length"\<close>: a canonical key is "\<open>Index(n)\<close>, n parsed
  as the exact value (errors only on numeric overflow, treated as \<open>NotAnIndex\<close>)";
  "anything else" is \<open>NotAnIndex\<close>. Not being an index is the \<^verbatim>\<open>std::invalid_argument\<close>
  the handlers ignore.
\<close>

definition RJSValidatedPositiveIndex :: "string \<Rightarrow> error + nat" where
  "RJSValidatedPositiveIndex indexStr =
     (if canonical_index indexStr \<and> decimal_value indexStr \<le> LONG_MAX
      then Inr (decimal_value indexStr)
      else Inl NotAnIndexKey)"

text \<open>
  \<^verbatim>\<open>sprintf(str, "%zu", i)\<close>: the decimal digits of \<open>i\<close>, most significant first, no
  padding.
\<close>

fun sprintf_zu :: "nat \<Rightarrow> string" where
  "sprintf_zu i =
     (if i < 10 then [digit_char i] else sprintf_zu (i div 10) @ [digit_char (i mod 10)])"

subsection \<open>Property access\<close>

text \<open>
  \<^verbatim>\<open>ListGetProperty\<close>. The body of the \<^verbatim>\<open>try\<close> block either returns a value or
  throws; the \<^verbatim>\<open>catch\<close> clauses turn an exception into the returned reference and
  the exception slot \<^verbatim>\<open>*jsException\<close> (\<open>None\<close> when it is left untouched).
\<close>

definition ListGetProperty_try :: "'a List_state \<Rightarrow> string \<Rightarrow> error + 'a JSValueRef" where
  "ListGetProperty_try list indexStr =
     (if indexStr = ''length'' then Inr (JSValueMakeNumber (List_size list))
      else case RJSValidatedPositiveIndex indexStr of
             Inl e \<Rightarrow> Inl e
           | Inr index \<Rightarrow>
               (case List_get list index of
                  Inl e \<Rightarrow> Inl e
                | Inr row \<Rightarrow> Inr (RJSObjectCreate row)))"

definition ListGetProperty :: "'a List_state \<Rightarrow> string \<Rightarrow> 'a JSValueRef \<times> error option" where
  "ListGetProperty list propertyName =
     (case ListGetProperty_try list propertyName of
        Inr v \<Rightarrow> (v, None)
      | Inl exp \<Rightarrow>
          if class_of exp = std_out_of_range then (JSValueMakeUndefined, None)
          else if class_of exp = std_invalid_argument then (NULL, None)
          else (NULL, Some exp))"

text \<open>
  \<^verbatim>\<open>ListSetProperty\<close>: the list after the call, the returned \<^verbatim>\<open>bool\<close> and the
  exception slot.
\<close>

definition ListSetProperty_try ::
  "'a List_state \<Rightarrow> string \<Rightarrow> 'a JSValueRef \<Rightarrow> error + 'a List_state" where
  "ListSetProperty_try list indexStr v =
     (if indexStr = ''length'' then Inl ReadOnlyProperty
      else case RJSValidatedPositiveIndex indexStr of
             Inl e \<Rightarrow> Inl e
           | Inr index \<Rightarrow> List_set list v index)"

definition ListSetProperty ::
  "'a List_state \<Rightarrow> string \<Rightarrow> 'a JSValueRef \<Rightarrow> 'a List_state \<times> bool \<times> error option" where
  "ListSetProperty list propertyName v =
     (case ListSetProperty_try list propertyName v of
        Inr list' \<Rightarrow> (list', True, None)
      | Inl exp \<Rightarrow>
          if class_of exp = std_invalid_argument then (list, False, None)
          else (list, False, Some exp))"

subsection \<open>Property enumeration\<close>

text \<open>
  \<^verbatim>\<open>ListPropertyNames\<close>: the loop \<^verbatim>\<open>for (size_t i = 0; i < size; i++)\<close> adds the name
  printed from \<open>i\<close> to the accumulator \<open>propertyNames\<close>.
\<close>

function ListPropertyNames_loop :: "nat \<Rightarrow> nat \<Rightarrow> string list \<Rightarrow> string list" where
  "ListPropertyNames_loop sz i propertyNames =
     (if i < sz
      then ListPropertyNames_loop sz (Suc i) (propertyNames @ [sprintf_zu i])
      else propertyNames)"
  by pat_completeness auto
termination
  by (relation "measure (\<lambda>(sz, i, propertyNames). sz - i)") auto

definition ListPropertyNames :: "'a List_state \<Rightarrow> string list" where
  "ListPropertyNames list = (let size = List_size list in ListPropertyNames_loop size 0 [])"

subsection \<open>Methods\<close>

text \<open>
  What a method leaves behind: the list, the \<^verbatim>\<open>returnObject\<close> (which the wrapper
  \<^verbatim>\<open>LIST_METHOD\<close> initialises to \<open>NULL\<close>) and the exception slot.
\<close>

record 'a outcome =
  list_after :: "'a List_state"
  returnObject :: "'a JSValueRef"
  exceptionObject :: "error option"

text \<open>
  \<^verbatim>\<open>RJSSetException\<close>, with the return object as it stands when the handler runs.
  The caller's exception slot is present (JavaScriptCore passes one), so the test
  \<^verbatim>\<open>if (exceptionObject)\<close> succeeds.
\<close>

definition RJSSetException :: "'a List_state \<Rightarrow> 'a JSValueRef \<Rightarrow> error \<Rightarrow> 'a outcome" where
  "RJSSetException list ret exp =
     \<lparr>list_after = list, returnObject = ret, exceptionObject = Some exp\<rparr>"

definition RJSSetReturnUndefined :: "'a List_state \<Rightarrow> 'a outcome" where
  "RJSSetReturnUndefined list =
     \<lparr>list_after = list, returnObject = JSValueMakeUndefined, exceptionObject = None\<rparr>"

definition RJSSetReturnNumber :: "'a List_state \<Rightarrow> nat \<Rightarrow> 'a outcome" where
  "RJSSetReturnNumber list number =
     \<lparr>list_after = list, returnObject = JSValueMakeNumber number, exceptionObject = None\<rparr>"

definition RJSSetReturnArray :: "'a List_state \<Rightarrow> nat \<Rightarrow> 'a JSValueRef list \<Rightarrow> 'a outcome" where
  "RJSSetReturnArray list count objects =
     \<lparr>list_after = list, returnObject = JSArray (take count objects), exceptionObject = None\<rparr>"

text \<open>
  \<^verbatim>\<open>ListPush\<close>: \<^verbatim>\<open>for (size_t i = 0; i < argumentCount; i++) list->add(ctx, arguments[i])\<close>.
  A loop returns the list it reached and the exception that stopped it, if any.
\<close>

function ListPush_loop ::
  "'a List_state \<Rightarrow> 'a JSValueRef list \<Rightarrow> nat \<Rightarrow> error option \<times> 'a List_state" where
  "ListPush_loop list arguments i =
     (if i < length arguments
      then (case List_add list (arguments ! i) of
              Inl e \<Rightarrow> (Some e, list)
            | Inr list' \<Rightarrow> ListPush_loop list' arguments (Suc i))
      else (None, list))"
  by pat_completeness auto
termination
  by (relation "measure (\<lambda>(list, arguments, i). length arguments - i)") auto

definition ListPush :: "'a List_state \<Rightarrow> 'a JSValueRef list \<Rightarrow> 'a outcome" where
  "ListPush list arguments =
     (case RJSValidateArgumentCountIsAtLeast (length arguments) 1 of
        Inl exp \<Rightarrow> RJSSetException list NULL exp
      | Inr _ \<Rightarrow>
          (case ListPush_loop list arguments 0 of
             (Some exp, list') \<Rightarrow> RJSSetException list' NULL exp
           | (None, list') \<Rightarrow> RJSSetReturnNumber list' (List_size list')))"

text \<open>\<^verbatim>\<open>ListPop\<close>.\<close>

definition ListPop :: "'a List_state \<Rightarrow> 'a JSValueRef list \<Rightarrow> 'a outcome" where
  "ListPop list arguments =
     (case RJSValidateArgumentCount (length arguments) 0 of
        Inl exp \<Rightarrow> RJSSetException list NULL exp
      | Inr _ \<Rightarrow>
          let size = List_size list in
          if size = 0 then
            (case verify_in_transaction list of
               Inl exp \<Rightarrow> RJSSetException list NULL exp
             | Inr _ \<Rightarrow> RJSSetReturnUndefined list)
          else
            let index = size - 1 in
            (case List_get list index of
               Inl exp \<Rightarrow> RJSSetException list NULL exp
             | Inr row \<Rightarrow>
                 let ret = RJSObjectCreate row in
                 (case List_remove list index of
                    Inl exp \<Rightarrow> RJSSetException list ret exp
                  | Inr list' \<Rightarrow>
                      \<lparr>list_after = list', returnObject = ret, exceptionObject = None\<rparr>)))"

text \<open>
  \<^verbatim>\<open>ListUnshift\<close>:
  \<^verbatim>\<open>for (size_t i = 0; i < argumentCount; i++) list->insert(ctx, arguments[i], i)\<close>.
\<close>

function ListUnshift_loop ::
  "'a List_state \<Rightarrow> 'a JSValueRef list \<Rightarrow> nat \<Rightarrow> error option \<times> 'a List_state" where
  "ListUnshift_loop list arguments i =
     (if i < length arguments
      then (case List_insert list (arguments ! i) i of
              Inl e \<Rightarrow> (Some e, list)
            | Inr list' \<Rightarrow> ListUnshift_loop list' arguments (Suc i))
      else (None, list))"
  by pat_completeness auto
termination
  by (relation "measure (\<lambda>(list, arguments, i). length arguments - i)") auto

definition ListUnshift :: "'a List_state \<Rightarrow> 'a JSValueRef list \<Rightarrow> 'a outcome" where
  "ListUnshift list arguments =
     (case RJSValidateArgumentCountIsAtLeast (length arguments) 1 of
        Inl exp \<Rightarrow> RJSSetException list NULL exp
      | Inr _ \<Rightarrow>
          (case ListUnshift_loop list arguments 0 of
             (Some exp, list') \<Rightarrow> RJSSetException list' NULL exp
           | (None, list') \<Rightarrow> RJSSetReturnNumber list' (List_size list')))"

text \<open>\<^verbatim>\<open>ListShift\<close>.\<close>

definition ListShift :: "'a List_state \<Rightarrow> 'a JSValueRef list \<Rightarrow> 'a outcome" where
  "ListShift list arguments =
     (case RJSValidateArgumentCount (length arguments) 0 of
        Inl exp \<Rightarrow> RJSSetException list NULL exp
      | Inr _ \<Rightarrow>
          if List_size list = 0 then
            (case verify_in_transaction list of
               Inl exp \<Rightarrow> RJSSetException list NULL exp
             | Inr _ \<Rightarrow> RJSSetReturnUndefined list)
          else
            (case List_get list 0 of
               Inl exp \<Rightarrow> RJSSetException list NULL exp
             | Inr row \<Rightarrow>
                 let ret = RJSObjectCreate row in
                 (case List_remove list 0 of
                    Inl exp \<Rightarrow> RJSSetException list ret exp
                  | Inr list' \<Rightarrow>
                      \<lparr>list_after = list', returnObject = ret, exceptionObject = None\<rparr>)))"

text \<open>
  \<^verbatim>\<open>ListSplice\<close>. \<^verbatim>\<open>long\<close> and \<^verbatim>\<open>size_t\<close> are 64-bit words; \<^verbatim>\<open>std::min<long>\<close> and
  \<^verbatim>\<open>std::max<long>\<close> convert their arguments to \<^verbatim>\<open>long\<close> and compare them as signed
  values, while \<^verbatim>\<open>size + index\<close> and \<^verbatim>\<open>size - index\<close> are computed on \<^verbatim>\<open>size_t\<close> and
  wrap around.
\<close>

definition std_min_long :: "64 word \<Rightarrow> 64 word \<Rightarrow> 64 word" where
  "std_min_long a b = (if b <s a then b else a)"

definition std_max_long :: "64 word \<Rightarrow> 64 word \<Rightarrow> 64 word" where
  "std_max_long a b = (if a <s b then b else a)"

text \<open>
  The conversion from \<^verbatim>\<open>double\<close> to \<^verbatim>\<open>long\<close> that \<^verbatim>\<open>std::min<long>\<close> and
  \<^verbatim>\<open>std::max<long>\<close> apply to the number returned by \<^verbatim>\<open>RJSValidatedValueToNumber\<close>,
  before they compare. A value in the range of \<^verbatim>\<open>long\<close> converts to itself. For a
  value outside that range C++ leaves the conversion undefined; the compiled code
  (the x86-64 instruction \<^verbatim>\<open>cvttsd2si\<close>) yields the smallest \<^verbatim>\<open>long\<close>, \<open>- 2 ^ 63\<close>.
\<close>

definition double_to_long :: "int \<Rightarrow> 64 word" where
  "double_to_long number =
     (if - (2 ^ 63) \<le> number \<and> number < 2 ^ 63 then of_int number
      else of_int (- (2 ^ 63)))"

text \<open>Lines 195 to 198: the start position.\<close>

definition ListSplice_index :: "nat \<Rightarrow> int \<Rightarrow> 64 word" where
  "ListSplice_index sz number =
     (let index = std_min_long (double_to_long number) (of_nat sz) in
      if index <s 0 then std_max_long (of_nat sz + index) 0 else index)"

text \<open>Lines 200 to 207: the number of elements to remove.\<close>

definition ListSplice_remove :: "nat \<Rightarrow> 64 word \<Rightarrow> 'a JSValueRef list \<Rightarrow> error + 64 word" where
  "ListSplice_remove sz index arguments =
     (if length arguments < 2 then Inr (of_nat sz - index)
      else case RJSValidatedValueToNumber (arguments ! 1) of
             Inl e \<Rightarrow> Inl e
           | Inr number \<Rightarrow>
               let remove = std_max_long (double_to_long number) 0 in
               Inr (std_min_long remove (of_nat sz - index)))"

text \<open>
  Lines 210 to 213: each round reads the element at \<open>index\<close> into slot \<open>i\<close> of
  \<open>removedObjects\<close> and removes it from the list.
\<close>

function ListSplice_remove_loop ::
  "'a List_state \<Rightarrow> 64 word \<Rightarrow> 64 word \<Rightarrow> 'a JSValueRef list \<Rightarrow> nat \<Rightarrow>
     error option \<times> 'a List_state \<times> 'a JSValueRef list" where
  "ListSplice_remove_loop list index remove removedObjects i =
     (if i < unat remove
      then (case List_get list (unat index) of
              Inl e \<Rightarrow> (Some e, list, removedObjects)
            | Inr row \<Rightarrow>
                (case List_remove list (unat index) of
                   Inl e \<Rightarrow> (Some e, list, removedObjects[i := RJSObjectCreate row])
                 | Inr list' \<Rightarrow>
                     ListSplice_remove_loop list' index remove
                       (removedObjects[i := RJSObjectCreate row]) (Suc i)))
      else (None, list, removedObjects))"
  by pat_completeness auto
termination
  by (relation "measure (\<lambda>(list, index, remove, removedObjects, i). unat remove - i)") auto

text \<open>Lines 214 to 216: the arguments from the third on are inserted at \<open>index + i - 2\<close>.\<close>

function ListSplice_insert_loop ::
  "'a List_state \<Rightarrow> 'a JSValueRef list \<Rightarrow> 64 word \<Rightarrow> nat \<Rightarrow> error option \<times> 'a List_state" where
  "ListSplice_insert_loop list arguments index i =
     (if i < length arguments
      then (case List_insert list (arguments ! i) (unat (index + of_nat i - 2)) of
              Inl e \<Rightarrow> (Some e, list)
            | Inr list' \<Rightarrow> ListSplice_insert_loop list' arguments index (Suc i))
      else (None, list))"
  by pat_completeness auto
termination
  by (relation "measure (\<lambda>(list, arguments, index, i). length arguments - i)") auto

definition ListSplice :: "'a List_state \<Rightarrow> 'a JSValueRef list \<Rightarrow> 'a outcome" where
  "ListSplice list arguments =
     (let size = List_size list in
      case RJSValidateArgumentCountIsAtLeast (length arguments) 1 of
        Inl exp \<Rightarrow> RJSSetException list NULL exp
      | Inr _ \<Rightarrow>
          (case RJSValidatedValueToNumber (arguments ! 0) of
             Inl exp \<Rightarrow> RJSSetException list NULL exp
           | Inr number \<Rightarrow>
               let index = ListSplice_index size number in
               (case ListSplice_remove size index arguments of
                  Inl exp \<Rightarrow> RJSSetException list NULL exp
                | Inr remove \<Rightarrow>
                    (case ListSplice_remove_loop list index remove
                            (replicate (unat remove) NULL) 0 of
                       (Some exp, list', removedObjects) \<Rightarrow> RJSSetException list' NULL exp
                     | (None, list', removedObjects) \<Rightarrow>
                         (case ListSplice_insert_loop list' arguments index 2 of
                            (Some exp, list'') \<Rightarrow> RJSSetException list'' NULL exp
                          | (None, list'') \<Rightarrow>
                              RJSSetReturnArray list'' (unat remove) removedObjects)))))"

subsection \<open>Views\<close>

text \<open>
  Modelled from the spec: the view system behind \<^verbatim>\<open>RJSResultsCreate\<close>
  (\<^verbatim>\<open>js_results.cpp\<close>), "createView(store, schema, query, live: bool)": a view is "a
  query bound to the store and schema, with a live/static flag determining whether it
  tracks subsequent store mutation". A live view evaluates its query in the store it is
  read in; a static view keeps the rows its query held when it was created.
\<close>

definition get_query :: "'a List_state \<Rightarrow> Query" where
  "get_query list = ListQuery"

fun query_rows :: "Query \<Rightarrow> 'a List_state \<Rightarrow> 'a list" where
  "query_rows ListQuery store = rows store"

definition RJSResultsCreate :: "'a List_state \<Rightarrow> Query \<Rightarrow> bool \<Rightarrow> 'a JSValueRef" where
  "RJSResultsCreate realm query live =
     JSResults \<lparr>results_query = query, results_live = live,
                results_rows = query_rows query realm\<rparr>"

definition Results_members :: "'a Results \<Rightarrow> 'a List_state \<Rightarrow> 'a list" where
  "Results_members view store =
     (if results_live view then query_rows (results_query view) store
      else results_rows view)"

text \<open>\<^verbatim>\<open>ListStaticResults\<close>, the method \<^verbatim>\<open>snapshot\<close>.\<close>

definition ListStaticResults :: "'a List_state \<Rightarrow> 'a JSValueRef list \<Rightarrow> 'a outcome" where
  "ListStaticResults list arguments =
     (case RJSValidateArgumentCount (length arguments) 0 of
        Inl exp \<Rightarrow> RJSSetException list NULL exp
      | Inr _ \<Rightarrow>
          \<lparr>list_after = list,
           returnObject = RJSResultsCreate list (get_query list) False,
           exceptionObject = None\<rparr>)"

subsection \<open>The index arithmetic of \<^verbatim>\<open>splice\<close> as the specification words it\<close>

text \<open>
  On unbounded integers: "start is computed as min(numeric(arg0), size); if negative,
  renormalize as max(size + start, 0)", and "if fewer than 2 arguments given,
  deleteCount = size - start; else deleteCount = clamp(numeric(arg1), 0, size - start)".
\<close>

definition splice_start_spec :: "nat \<Rightarrow> int \<Rightarrow> int" where
  "splice_start_spec sz number =
     (let start = min number (int sz) in
      if start < 0 then max (int sz + start) 0 else start)"

definition clamp :: "int \<Rightarrow> int \<Rightarrow> int \<Rightarrow> int" where
  "clamp x lo hi = min (max x lo) hi"

definition splice_deleteCount_spec :: "nat \<Rightarrow> int \<Rightarrow> int option \<Rightarrow> int" where
  "splice_deleteCount_spec sz start arg1 =
     (case arg1 of
        None \<Rightarrow> int sz - start
      | Some number \<Rightarrow> clamp number 0 (int sz - start))"

section \<open>Auxiliary lemmas\<close>

declare sprintf_zu.simps [simp del]
declare ListPropertyNames_loop.simps [simp del]
declare ListPush_loop.simps [simp del]
declare ListUnshift_loop.simps [simp del]
declare ListSplice_remove_loop.simps [simp del]
declare ListSplice_insert_loop.simps [simp del]

subsection \<open>Decimal keys\<close>

lemma digit_cases: "d < (10::nat) \<Longrightarrow> d = 0 \<or> d = 1 \<or> d = 2 \<or> d = 3 \<or> d = 4 \<or> d = 5 \<or> d = 6 \<or> d = 7 \<or> d = 8 \<or> d = 9"
  by arith

lemma of_char_digit_char: "d < 10 \<Longrightarrow> (of_char (digit_char d) :: nat) = 48 + d"
  using digit_cases [of d] by (auto simp: digit_char_def)

lemma is_digit_digit_char: "d < 10 \<Longrightarrow> is_digit (digit_char d)"
  by (simp add: is_digit_def of_char_digit_char)

lemma digit_value_digit_char: "d < 10 \<Longrightarrow> digit_value (digit_char d) = d"
  by (simp add: digit_value_def of_char_digit_char)

lemma digit_char_eq_zero: "d < 10 \<Longrightarrow> digit_char d = CHR ''0'' \<longleftrightarrow> d = 0"
proof -
  assume d: "d < 10"
  have "digit_char d = CHR ''0'' \<longleftrightarrow> (of_char (digit_char d) :: nat) = of_char CHR ''0''"
    by (simp only: of_char_eq_iff)
  also have "\<dots> \<longleftrightarrow> d = 0" using d by (simp add: of_char_digit_char)
  finally show ?thesis .
qed

lemma digit_value_less: "is_digit c \<Longrightarrow> digit_value c < 10"
  by (auto simp: is_digit_def digit_value_def)

lemma digit_char_digit_value: "is_digit c \<Longrightarrow> digit_char (digit_value c) = c"
proof -
  assume c: "is_digit c"
  then have "(of_char (digit_char (digit_value c)) :: nat) = 48 + digit_value c"
    by (simp add: of_char_digit_char digit_value_less)
  also have "\<dots> = of_char c" using c by (simp add: is_digit_def digit_value_def)
  finally show ?thesis by (simp only: of_char_eq_iff)
qed

lemma decimal_value_snoc: "decimal_value (s @ [c]) = 10 * decimal_value s + digit_value c"
  by (simp add: decimal_value_def)

lemma sprintf_zu_not_Nil: "sprintf_zu i \<noteq> []"
  by (subst sprintf_zu.simps) simp

lemma all_digits_sprintf_zu: "list_all is_digit (sprintf_zu i)"
proof (induction i rule: sprintf_zu.induct)
  case (1 i)
  show ?case
  proof (cases "i < 10")
    case True
    then show ?thesis by (subst sprintf_zu.simps) (simp add: is_digit_digit_char)
  next
    case False
    with 1 show ?thesis by (subst sprintf_zu.simps) (simp add: is_digit_digit_char)
  qed
qed

lemma hd_sprintf_zu: "0 < i \<Longrightarrow> hd (sprintf_zu i) \<noteq> CHR ''0''"
proof (induction i rule: sprintf_zu.induct)
  case (1 i)
  show ?case
  proof (cases "i < 10")
    case True
    with 1 show ?thesis by (subst sprintf_zu.simps) (simp add: digit_char_eq_zero)
  next
    case False
    then have "0 < i div 10" by simp
    with 1 False show ?thesis 
      by (subst sprintf_zu.simps) (simp add: sprintf_zu_not_Nil)
  qed
qed

lemma decimal_value_sprintf_zu: "decimal_value (sprintf_zu i) = i"
proof (induction i rule: sprintf_zu.induct)
  case (1 i)
  show ?case
  proof (cases "i < 10")
    case True
    then show ?thesis
      by (subst sprintf_zu.simps) (simp add: decimal_value_def digit_value_digit_char)
  next
    case False
    with 1 show ?thesis
      by (subst sprintf_zu.simps) (simp add: decimal_value_snoc digit_value_digit_char)
  qed
qed

lemma canonical_index_sprintf_zu: "canonical_index (sprintf_zu i)"
proof (cases "i = 0")
  case True
  then show ?thesis by (simp add: canonical_index_def sprintf_zu.simps digit_char_def)
next
  case False
  obtain c cs where s: "sprintf_zu i = c # cs"
    using sprintf_zu_not_Nil [of i] by (cases "sprintf_zu i") auto
  from False have "hd (sprintf_zu i) \<noteq> CHR ''0''" by (simp add: hd_sprintf_zu)
  moreover have "list_all is_digit (sprintf_zu i)" by (rule all_digits_sprintf_zu)
  ultimately show ?thesis unfolding canonical_index_def s by simp
qed

lemma canonical_index_snoc:
  assumes "canonical_index (s @ [c])" and "s \<noteq> []"
  shows "canonical_index s" and "is_digit c" and "s \<noteq> ''0''"
proof -
  from assms(2) obtain a s' where s: "s = a # s'" by (cases s) auto
  from assms(1) show "canonical_index s" and "is_digit c" and "s \<noteq> ''0''"
    unfolding s by (auto simp: canonical_index_def)
qed

lemma canonical_index_single: "canonical_index [c] \<Longrightarrow> is_digit c"
  by (auto simp: canonical_index_def is_digit_def)

lemma canonical_index_not_Nil: "canonical_index s \<Longrightarrow> s \<noteq> []"
  by (auto simp: canonical_index_def)

lemma decimal_value_pos:
  "canonical_index s \<Longrightarrow> s \<noteq> ''0'' \<Longrightarrow> 0 < decimal_value s"
proof (induction s rule: rev_induct)
  case Nil
  then show ?case by (simp add: canonical_index_def)
next
  case (snoc c s)
  show ?case
  proof (cases "s = []")
    case True
    with snoc.prems have "is_digit c" "c \<noteq> CHR ''0''"
      by (auto simp: canonical_index_def)
    have "(of_char c :: nat) = of_char CHR ''0'' \<longleftrightarrow> c = CHR ''0''"
      by (simp only: of_char_eq_iff)
    with \<open>c \<noteq> CHR ''0''\<close> have "(of_char c :: nat) \<noteq> 48" by simp
    with \<open>is_digit c\<close> True show ?thesis
      by (simp add: decimal_value_def digit_value_def is_digit_def)
  next
    case False
    with snoc.prems canonical_index_snoc [of s c] have "canonical_index s" "s \<noteq> ''0''" by auto
    with snoc.IH have "0 < decimal_value s" by simp
    then show ?thesis by (simp add: decimal_value_snoc)
  qed
qed

lemma sprintf_zu_decimal_value: "canonical_index s \<Longrightarrow> sprintf_zu (decimal_value s) = s"
proof (induction s rule: rev_induct)
  case Nil
  then show ?case by (simp add: canonical_index_def)
next
  case (snoc c s)
  show ?case
  proof (cases "s = []")
    case True
    with snoc.prems have "is_digit c" by (simp add: canonical_index_single)
    with True show ?thesis
      by (subst sprintf_zu.simps)
        (simp add: decimal_value_def digit_value_less digit_char_digit_value)
  next
    case False
    with snoc.prems canonical_index_snoc [of s c]
    have s: "canonical_index s" "s \<noteq> ''0''" and c: "is_digit c" by auto
    from s have pos: "0 < decimal_value s" by (rule decimal_value_pos)
    from c have d: "digit_value c < 10" by (rule digit_value_less)
    have "sprintf_zu (10 * decimal_value s + digit_value c) =
          sprintf_zu (decimal_value s) @ [digit_char (digit_value c)]"
      using pos d by (subst sprintf_zu.simps) simp
    with snoc.IH s c show ?thesis
      by (simp add: decimal_value_snoc digit_char_digit_value)
  qed
qed

lemma sprintf_zu_not_length: "sprintf_zu i \<noteq> ''length''"
proof
  assume "sprintf_zu i = ''length''"
  with all_digits_sprintf_zu [of i] show False by (simp add: is_digit_def)
qed

lemma RJSValidatedPositiveIndex_sprintf_zu:
  "i \<le> LONG_MAX \<Longrightarrow> RJSValidatedPositiveIndex (sprintf_zu i) = Inr i"
  by (simp add: RJSValidatedPositiveIndex_def canonical_index_sprintf_zu decimal_value_sprintf_zu)

lemma RJSValidatedPositiveIndex_Inr_iff:
  "RJSValidatedPositiveIndex s = Inr n \<longleftrightarrow> s = sprintf_zu n \<and> n \<le> LONG_MAX"
  by (auto simp: RJSValidatedPositiveIndex_def canonical_index_sprintf_zu
      decimal_value_sprintf_zu sprintf_zu_decimal_value)

lemma ListPropertyNames_loop_eq:
  "ListPropertyNames_loop sz i acc = acc @ map sprintf_zu [i..<sz]"
proof (induction sz i acc rule: ListPropertyNames_loop.induct)
  case (1 sz i acc)
  show ?case
  proof (cases "i < sz")
    case True
    with 1 show ?thesis
      by (subst ListPropertyNames_loop.simps) (simp add: upt_conv_Cons)
  next
    case False
    then show ?thesis by (subst ListPropertyNames_loop.simps) simp
  qed
qed

subsection \<open>The list primitives where they succeed\<close>

lemma List_add_ok:
  "in_write_transaction list \<Longrightarrow>
   List_add list (JSObject x) = Inr (list\<lparr>rows := rows list @ [x]\<rparr>)"
  by (simp add: List_add_def)

lemma List_insert_ok:
  "in_write_transaction list \<Longrightarrow> p \<le> length (rows list) \<Longrightarrow>
   List_insert list (JSObject x) p =
     Inr (list\<lparr>rows := take p (rows list) @ x # drop p (rows list)\<rparr>)"
  by (simp add: List_insert_def)

lemma List_remove_ok:
  "in_write_transaction list \<Longrightarrow> p < length (rows list) \<Longrightarrow>
   List_remove list p = Inr (list\<lparr>rows := take p (rows list) @ drop (Suc p) (rows list)\<rparr>)"
  by (simp add: List_remove_def)

lemma List_get_ok:
  "p < length (rows list) \<Longrightarrow> List_get list p = Inr (rows list ! p)"
  by (simp add: List_get_def)

lemma ListPush_loop_ok:
  "in_write_transaction list \<Longrightarrow> i \<le> length xs \<Longrightarrow>
   ListPush_loop list (map JSObject xs) i = (None, list\<lparr>rows := rows list @ drop i xs\<rparr>)"
proof (induction "length xs - i" arbitrary: list i)
  case 0
  then show ?case by (subst ListPush_loop.simps) simp
next
  case (Suc n)
  then have i: "i < length xs" by simp
  let ?list' = "list\<lparr>rows := rows list @ [xs ! i]\<rparr>"
  have "ListPush_loop list (map JSObject xs) i = ListPush_loop ?list' (map JSObject xs) (Suc i)"
    using i Suc.prems(1) by (subst ListPush_loop.simps) (simp add: List_add_ok)
  also have "\<dots> = (None, ?list'\<lparr>rows := rows ?list' @ drop (Suc i) xs\<rparr>)"
    using Suc.hyps(2) Suc.prems(1) i by (intro Suc.hyps(1)) auto
  also have "rows ?list' @ drop (Suc i) xs = rows list @ drop i xs"
    using i by (simp add: Cons_nth_drop_Suc)
  finally show ?case by simp
qed

lemma ListUnshift_loop_ok:
  "in_write_transaction list \<Longrightarrow> i \<le> length xs \<Longrightarrow> i \<le> length (rows list) \<Longrightarrow>
   ListUnshift_loop list (map JSObject xs) i =
     (None, list\<lparr>rows := take i (rows list) @ drop i xs @ drop i (rows list)\<rparr>)"
proof (induction "length xs - i" arbitrary: list i)
  case 0
  then show ?case by (subst ListUnshift_loop.simps) simp
next
  case (Suc n)
  then have i: "i < length xs" by simp
  let ?list' = "list\<lparr>rows := take i (rows list) @ xs ! i # drop i (rows list)\<rparr>"
  have "ListUnshift_loop list (map JSObject xs) i =
        ListUnshift_loop ?list' (map JSObject xs) (Suc i)"
    using i Suc.prems by (subst ListUnshift_loop.simps) (simp add: List_insert_ok)
  also have "\<dots> = (None, ?list'\<lparr>rows := take (Suc i) (rows ?list') @ drop (Suc i) xs @
       drop (Suc i) (rows ?list')\<rparr>)"
    using Suc.hyps(2) Suc.prems i by (intro Suc.hyps(1)) auto
  also have "take (Suc i) (rows ?list') @ drop (Suc i) xs @ drop (Suc i) (rows ?list') =
       take i (rows list) @ drop i xs @ drop i (rows list)"
    using i Suc.prems(3) by (simp add: Cons_nth_drop_Suc [symmetric] min_absorb2)
  finally show ?case by simp
qed

lemma ListSplice_remove_loop_ok:
  assumes "in_write_transaction list"
    and "i \<le> unat remove"
    and "unat index + (unat remove - i) \<le> length (rows list)"
    and "length removedObjects = unat remove"
  shows "ListSplice_remove_loop list index remove removedObjects i =
     (None,
      list\<lparr>rows := take (unat index) (rows list) @
                     drop (unat index + (unat remove - i)) (rows list)\<rparr>,
      take i removedObjects @
        map RJSObjectCreate (take (unat remove - i) (drop (unat index) (rows list))))"
  using assms
proof (induction "unat remove - i" arbitrary: list i removedObjects)
  case 0
  then show ?case by (subst ListSplice_remove_loop.simps) simp
next
  case (Suc n)
  let ?s = "unat index"
  let ?k = "unat remove"
  from Suc have i: "i < ?k" and n: "n = ?k - Suc i" by simp_all
  from Suc.prems(3) i have s: "?s < length (rows list)" by simp
  let ?x = "RJSObjectCreate (rows list ! ?s)"
  let ?list' = "list\<lparr>rows := take ?s (rows list) @ drop (Suc ?s) (rows list)\<rparr>"
  let ?ro' = "removedObjects[i := ?x]"
  have step: "ListSplice_remove_loop list index remove removedObjects i =
        ListSplice_remove_loop ?list' index remove ?ro' (Suc i)"
    using i s Suc.prems(1)
    by (subst ListSplice_remove_loop.simps) (simp add: List_get_ok List_remove_ok)
  have IH: "ListSplice_remove_loop ?list' index remove ?ro' (Suc i) =
     (None,
      ?list'\<lparr>rows := take ?s (rows ?list') @ drop (?s + (?k - Suc i)) (rows ?list')\<rparr>,
      take (Suc i) ?ro' @ map RJSObjectCreate (take (?k - Suc i) (drop ?s (rows ?list'))))"
    using n Suc.prems i s by (intro Suc.hyps(1)) simp_all
  have r1: "take ?s (rows ?list') = take ?s (rows list)" using s by simp
  have r2: "drop (?s + (?k - Suc i)) (rows ?list') = drop (?s + (?k - i)) (rows list)"
  proof -
    have "drop (?s + (?k - Suc i)) (rows ?list') = drop (?k - Suc i) (drop (Suc ?s) (rows list))"
      using s by simp
    also have "\<dots> = drop ((?k - Suc i) + Suc ?s) (rows list)" by (simp only: drop_drop)
    also have "(?k - Suc i) + Suc ?s = ?s + (?k - i)" using i by arith
    finally show ?thesis .
  qed
  have r3: "take (Suc i) ?ro' = take i removedObjects @ [?x]"
    using i Suc.prems(4) by (simp add: take_Suc_conv_app_nth)
  have r4: "drop ?s (rows ?list') = drop (Suc ?s) (rows list)" using s by simp
  have r5: "take (?k - i) (drop ?s (rows list)) =
      rows list ! ?s # take (?k - Suc i) (drop (Suc ?s) (rows list))"
  proof -
    from i obtain j where j: "?k - i = Suc j" "?k - Suc i = j"
      by (cases "?k - i") auto
    from s have "drop ?s (rows list) = rows list ! ?s # drop (Suc ?s) (rows list)"
      by (simp add: Cons_nth_drop_Suc)
    then show ?thesis by (simp add: j)
  qed
  show ?case
    unfolding step IH r1 r2 r3 r4 r5 by simp
qed

subsection \<open>Words and integers\<close>

lemma sint_of_int_long:
  "- (2 ^ 63) \<le> x \<Longrightarrow> x < 2 ^ 63 \<Longrightarrow> sint (word_of_int x :: 64 word) = x"
  by (simp add: signed_of_int signed_take_bit_int_eq_self)

lemma sint_of_nat_long:
  "sz < 2 ^ 63 \<Longrightarrow> sint (word_of_nat sz :: 64 word) = int sz"
  using sint_of_int_long [of "int sz"] by simp

lemma unat_of_int_long:
  "0 \<le> x \<Longrightarrow> x < 2 ^ 63 \<Longrightarrow> unat (word_of_int x :: 64 word) = nat x"
  by (simp add: unsigned_of_int take_bit_int_eq_self)

lemma splice_start_spec_bounds:
  "0 \<le> splice_start_spec sz n" "splice_start_spec sz n \<le> int sz"
  by (auto simp: splice_start_spec_def Let_def)

lemma std_min_long_of_int:
  assumes "- (2 ^ 63) \<le> a" "a < 2 ^ 63" "- (2 ^ 63) \<le> b" "b < 2 ^ 63"
  shows "std_min_long (word_of_int a) (word_of_int b) = word_of_int (min a b)"
  using assms by (simp add: std_min_long_def word_sless_alt sint_of_int_long min_def)

lemma std_max_long_of_int:
  assumes "- (2 ^ 63) \<le> a" "a < 2 ^ 63" "- (2 ^ 63) \<le> b" "b < 2 ^ 63"
  shows "std_max_long (word_of_int a) (word_of_int b) = word_of_int (max a b)"
  using assms by (simp add: std_max_long_def word_sless_alt sint_of_int_long max_def)

lemma double_to_long_in_range:
  "- (2 ^ 63) \<le> x \<Longrightarrow> x < 2 ^ 63 \<Longrightarrow> double_to_long x = word_of_int x"
  by (simp add: double_to_long_def)

lemma ListSplice_index_eq:
  assumes "sz < 2 ^ 63" and "- (2 ^ 63) \<le> n" and "n < 2 ^ 63"
  shows "ListSplice_index sz n = word_of_int (splice_start_spec sz n)"
proof -
  have dl: "double_to_long n = word_of_int n"
    using assms(2,3) by (rule double_to_long_in_range)
  have sz: "(word_of_nat sz :: 64 word) = word_of_int (int sz)" by simp
  define m where "m = min n (int sz)"
  have min_eq: "std_min_long (word_of_int n) (word_of_int (int sz)) = word_of_int m"
    unfolding m_def using assms by (intro std_min_long_of_int) auto
  have m_range: "- (2 ^ 63) \<le> m" "m < 2 ^ 63"
    using assms by (auto simp: m_def min_def)
  have sm: "sint (word_of_int m :: 64 word) = m"
    using m_range by (intro sint_of_int_long) auto
  have max_eq: "std_max_long (word_of_int (int sz) + word_of_int m) 0 =
      word_of_int (max (int sz + m) 0)" if "m < 0"
  proof -
    have "std_max_long (word_of_int (int sz + m)) (word_of_int 0) =
      word_of_int (max (int sz + m) 0)"
      using that m_range assms(1) by (intro std_max_long_of_int) auto
    then show ?thesis by simp
  qed
  have lt: "(word_of_int m :: 64 word) <s 0 \<longleftrightarrow> m < 0"
    by (simp add: word_sless_alt sm)
  have "ListSplice_index sz n =
      (if m < 0 then std_max_long (word_of_int (int sz) + word_of_int m) 0 else word_of_int m)"
    unfolding ListSplice_index_def dl sz min_eq Let_def lt ..
  also have "\<dots> = word_of_int (if m < 0 then max (int sz + m) 0 else m)"
    using max_eq by (cases "m < 0") simp_all
  also have "(if m < 0 then max (int sz + m) 0 else m) = splice_start_spec sz n"
    by (auto simp: splice_start_spec_def m_def Let_def)
  finally show ?thesis .
qed

lemma ListSplice_remove_eq:
  assumes "sz < 2 ^ 63" and "0 \<le> start" and "start \<le> int sz"
    and "length arguments \<ge> 2 \<Longrightarrow> arguments ! 1 = JSNumber m \<and> - (2 ^ 63) \<le> m \<and> m < 2 ^ 63"
  shows "ListSplice_remove sz (word_of_int start) arguments =
    Inr (word_of_int (splice_deleteCount_spec sz start
       (if length arguments < 2 then None else Some m)))"
proof -
  have diff: "(word_of_nat sz :: 64 word) - word_of_int start = word_of_int (int sz - start)"
    by simp
  show ?thesis
  proof (cases "length arguments < 2")
    case True
    then show ?thesis
      unfolding ListSplice_remove_def diff by (simp add: splice_deleteCount_spec_def)
  next
    case False
    with assms(4) have a: "arguments ! 1 = JSNumber m" and m: "- (2 ^ 63) \<le> m" "m < 2 ^ 63"
      by auto
    have "std_max_long (word_of_int m) (word_of_int 0) = word_of_int (max m 0)"
      using m by (intro std_max_long_of_int) auto
    then have mx: "std_max_long (word_of_int m) 0 = word_of_int (max m 0)" by simp
    have mn: "std_min_long (word_of_int (max m 0)) (word_of_int (int sz - start)) =
        word_of_int (min (max m 0) (int sz - start))"
      using m assms(1-3) by (intro std_min_long_of_int) auto
    from a have a': "RJSValidatedValueToNumber (arguments ! 1) = Inr m" by simp
    have dl: "double_to_long m = word_of_int m"
      using m by (rule double_to_long_in_range)
    from False show ?thesis
      by (simp only: ListSplice_remove_def a' sum.case Let_def dl mx diff mn if_False
          splice_deleteCount_spec_def clamp_def option.case)
  qed
qed

lemma unat_insert_position:
  fixes index :: "64 word"
  assumes "2 \<le> i" and "unat index + i < 2 ^ 64"
  shows "unat (index + word_of_nat i - 2) = unat index + (i - 2)"
proof -
  have "index + word_of_nat i - 2 = word_of_nat (unat index) + (word_of_nat i - word_of_nat 2)"
    by simp
  also have "(word_of_nat i :: 64 word) - word_of_nat 2 = word_of_nat (i - 2)"
    using assms(1) by (simp only: of_nat_diff)
  also have "(word_of_nat (unat index) :: 64 word) + word_of_nat (i - 2) =
      word_of_nat (unat index + (i - 2))"
    by (simp only: of_nat_add)
  finally have "unat (index + word_of_nat i - 2) = (unat index + (i - 2)) mod 2 ^ 64"
    by (simp only: unat_of_nat) simp
  also have "\<dots> = unat index + (i - 2)" using assms by simp
  finally show ?thesis .
qed

lemma insert_at_take_drop:
  assumes "p \<le> length ys"
  shows "take (Suc p) (take p ys @ x # drop p ys) = take p ys @ [x]"
    and "drop (Suc p) (take p ys @ x # drop p ys) = drop p ys"
  using assms by (simp_all add: min_absorb2)

lemma ListSplice_insert_loop_ok:
  assumes "in_write_transaction list"
    and "j \<le> length xs"
    and "drop 2 arguments = map JSObject xs"
    and "2 \<le> length arguments"
    and "unat index + j \<le> length (rows list)"
    and "unat index + length arguments < 2 ^ 64"
  shows "ListSplice_insert_loop list arguments index (Suc (Suc j)) =
     (None, list\<lparr>rows := take (unat index + j) (rows list) @ drop j xs @
                            drop (unat index + j) (rows list)\<rparr>)"
  using assms
proof (induction "length xs - j" arbitrary: list j)
  case 0
  have len: "length xs = length arguments - 2"
    using arg_cong [OF "0.prems"(3), of length] by simp
  with 0 have "\<not> Suc (Suc j) < length arguments" by simp
  then show ?case using 0 by (subst ListSplice_insert_loop.simps) simp
next
  case (Suc n)
  let ?p = "unat index + j"
  let ?x = "xs ! j"
  have len: "length xs = length arguments - 2"
    using arg_cong [OF Suc.prems(3), of length] by simp
  from Suc have j: "j < length xs" by simp
  with len have i: "Suc (Suc j) < length arguments" by simp
  have "arguments ! (2 + j) = drop 2 arguments ! j"
    using Suc.prems(4) by (simp only: nth_drop)
  also have "\<dots> = JSObject ?x"
    unfolding Suc.prems(3) using j by simp
  finally have arg: "arguments ! Suc (Suc j) = JSObject ?x" by simp
  have "unat (index + word_of_nat (Suc (Suc j)) - 2) = unat index + (Suc (Suc j) - 2)"
    using Suc.prems(6) i by (intro unat_insert_position) auto
  then have pos: "unat (index + word_of_nat (Suc (Suc j)) - 2) = ?p" by simp
  let ?list' = "list\<lparr>rows := take ?p (rows list) @ ?x # drop ?p (rows list)\<rparr>"
  have step: "ListSplice_insert_loop list arguments index (Suc (Suc j)) =
      ListSplice_insert_loop ?list' arguments index (Suc (Suc (Suc j)))"
    using i Suc.prems(1,5)
    by (subst ListSplice_insert_loop.simps) (simp only: arg pos List_insert_ok if_True sum.case)
  have IH: "ListSplice_insert_loop ?list' arguments index (Suc (Suc (Suc j))) =
     (None, ?list'\<lparr>rows := take (unat index + Suc j) (rows ?list') @
        drop (Suc j) xs @ drop (unat index + Suc j) (rows ?list')\<rparr>)"
    using Suc.hyps(2) Suc.prems j by (intro Suc.hyps(1)) simp_all
  have rows': "rows ?list' = take ?p (rows list) @ ?x # drop ?p (rows list)" by simp
  have q: "unat index + Suc j = Suc ?p" by simp
  have r1: "take (unat index + Suc j) (rows ?list') = take ?p (rows list) @ [?x]"
    unfolding rows' q using Suc.prems(5) by (rule insert_at_take_drop(1))
  have r2: "drop (unat index + Suc j) (rows ?list') = drop ?p (rows list)"
    unfolding rows' q using Suc.prems(5) by (rule insert_at_take_drop(2))
  have r3: "?x # drop (Suc j) xs = drop j xs"
    using j by (simp add: Cons_nth_drop_Suc)
  show ?case unfolding step IH r1 r2 by (simp add: r3)
qed

section \<open>Properties\<close>

text \<open>
  \<^verbatim>\<open>splice\<close> inside a write transaction, with numeric first and second arguments
  in the range of \<^verbatim>\<open>long\<close>, convertible items, and sizes that fit a \<^verbatim>\<open>long\<close>: the
  64-bit computation of the source yields the start position
  \<open>min(numeric(arg0), size)\<close>, renormalised to \<open>max(size + start, 0)\<close> when negative, and
  the delete count \<open>size - start\<close> (fewer than two arguments) or
  \<open>clamp(numeric(arg1), 0, size - start)\<close>; the rounds of the removal loop take
  \<open>deleteCount\<close> elements at position \<open>start\<close>, returned as an array in removal order;
  the arguments from the third on are then inserted in order at \<open>start\<close>; and a call
  with no argument fails with \<open>InvalidArgumentCount\<close>.
\<close>

theorem splice_removes_then_inserts:
  assumes txn: "in_write_transaction list"
    and fits: "length (rows list) + length arguments < 2 ^ 63"
    and arg0: "arguments \<noteq> []" "arguments ! 0 = JSNumber n" "- (2 ^ 63) \<le> n" "n < 2 ^ 63"
    and arg1: "2 \<le> length arguments \<longrightarrow>
                 arguments ! 1 = JSNumber m \<and> - (2 ^ 63) \<le> m \<and> m < 2 ^ 63"
    and items: "drop 2 arguments = map JSObject items"
    and start: "start = nat (splice_start_spec (length (rows list)) n)"
    and deleteCount: "deleteCount =
          nat (splice_deleteCount_spec (length (rows list)) (int start)
                 (if length arguments < 2 then None else Some m))"
  shows "unat (ListSplice_index (length (rows list)) n) = start \<and>
         ListSplice_remove (length (rows list)) (ListSplice_index (length (rows list)) n)
             arguments = Inr (word_of_nat deleteCount) \<and>
         start + deleteCount \<le> length (rows list) \<and>
         ListSplice list arguments =
           \<lparr>list_after =
              list\<lparr>rows := take start (rows list) @ items @
                               drop (start + deleteCount) (rows list)\<rparr>,
            returnObject = JSArray (map JSObject (take deleteCount (drop start (rows list)))),
            exceptionObject = None\<rparr> \<and>
         ListSplice list [] =
           \<lparr>list_after = list, returnObject = NULL,
            exceptionObject = Some InvalidArgumentCount\<rparr>"
proof -
  let ?sz = "length (rows list)"
  let ?index = "ListSplice_index ?sz n"
  have sz: "?sz < 2 ^ 63" using fits by simp
  have sb: "0 \<le> splice_start_spec ?sz n" "splice_start_spec ?sz n \<le> int ?sz"
    by (rule splice_start_spec_bounds)+
  have istart: "int start = splice_start_spec ?sz n" using sb start by simp
  have start_le: "start \<le> ?sz" using sb start by simp
  have index: "?index = word_of_int (int start)"
    unfolding istart using sz arg0(3,4) by (rule ListSplice_index_eq)
  have ustart: "unat ?index = start"
    unfolding index using unat_of_int_long [of "int start"] start_le sz by simp
  let ?dc = "splice_deleteCount_spec ?sz (int start)
                 (if length arguments < 2 then None else Some m)"
  have dcb: "0 \<le> ?dc" "?dc \<le> int ?sz - int start"
    using start_le by (auto simp: splice_deleteCount_spec_def clamp_def)
  have idc: "int deleteCount = ?dc" using dcb deleteCount by simp
  have dc_le: "start + deleteCount \<le> ?sz" using dcb idc by linarith
  have "ListSplice_remove ?sz (word_of_int (int start)) arguments = Inr (word_of_int ?dc)"
    using sz _ _ arg1 [rule_format] by (rule ListSplice_remove_eq) (use start_le in simp_all)
  then have remove: "ListSplice_remove ?sz ?index arguments = Inr (word_of_nat deleteCount)"
    unfolding index idc [symmetric] by simp
  let ?remove = "word_of_nat deleteCount :: 64 word"
  have uremove: "unat ?remove = deleteCount"
    using unat_of_int_long [of "int deleteCount"] dc_le sz by simp
  let ?list' = "list\<lparr>rows := take start (rows list) @ drop (start + deleteCount) (rows list)\<rparr>"
  let ?removed = "map RJSObjectCreate (take deleteCount (drop start (rows list)))"
  have loop1: "ListSplice_remove_loop list ?index ?remove (replicate (unat ?remove) NULL) 0 =
     (None, ?list', ?removed)"
    using ListSplice_remove_loop_ok [of list 0 ?remove ?index "replicate (unat ?remove) NULL"]
      txn dc_le by (simp add: ustart uremove)
  have argc: "2 \<le> length arguments \<or> (length arguments = 1 \<and> items = [])"
    using arg0(1) items by (cases arguments; cases "tl arguments") auto
  have loop2: "ListSplice_insert_loop ?list' arguments ?index 2 =
     (None, ?list'\<lparr>rows := take start (rows list) @ items @
                               drop (start + deleteCount) (rows list)\<rparr>)"
  proof (cases "2 \<le> length arguments")
    case True
    have "ListSplice_insert_loop ?list' arguments ?index (Suc (Suc 0)) =
      (None, ?list'\<lparr>rows := take (unat ?index + 0) (rows ?list') @ drop 0 items @
                            drop (unat ?index + 0) (rows ?list')\<rparr>)"
      using txn items True dc_le fits
      by (intro ListSplice_insert_loop_ok) (simp_all add: ustart)
    moreover have "take start (rows ?list') = take start (rows list)"
      using start_le by simp
    moreover have "drop start (rows ?list') = drop (start + deleteCount) (rows list)"
      using start_le by simp
    ultimately show ?thesis by (simp add: ustart numeral_2_eq_2)
  next
    case False
    with argc have "length arguments = 1" "items = []" by auto
    then show ?thesis
      using start_le by (subst ListSplice_insert_loop.simps) simp
  qed
  have r: "RJSValidatedValueToNumber (arguments ! 0) = Inr n" using arg0(2) by simp
  have v: "RJSValidateArgumentCountIsAtLeast (length arguments) 1 = Inr ()"
    using arg0(1) by (cases arguments) (simp_all add: RJSValidateArgumentCountIsAtLeast_def)
  have main: "ListSplice list arguments =
           \<lparr>list_after =
              list\<lparr>rows := take start (rows list) @ items @
                               drop (start + deleteCount) (rows list)\<rparr>,
            returnObject = JSArray (map JSObject (take deleteCount (drop start (rows list)))),
            exceptionObject = None\<rparr>"
  proof -
    have "ListSplice list arguments =
        RJSSetReturnArray
          (?list'\<lparr>rows := take start (rows list) @ items @
                               drop (start + deleteCount) (rows list)\<rparr>)
          (unat ?remove) ?removed"
      by (simp only: ListSplice_def List_size_def Let_def v r sum.case remove loop1 loop2
          prod.case option.case)
    then show ?thesis
      by (simp add: RJSSetReturnArray_def uremove RJSObjectCreate_def [abs_def])
  qed
  have none: "ListSplice list [] =
           \<lparr>list_after = list, returnObject = NULL,
            exceptionObject = Some InvalidArgumentCount\<rparr>"
    by (simp add: ListSplice_def RJSValidateArgumentCountIsAtLeast_def RJSSetException_def)
  from ustart remove dc_le main none show ?thesis by simp
qed

text \<open>
  The example of the specification: \<^verbatim>\<open>splice(1, 2, "x", "y")\<close> on \<^verbatim>\<open>[a, b, c, d, e]\<close>
  returns \<^verbatim>\<open>[b, c]\<close> and leaves \<^verbatim>\<open>[a, x, y, d, e]\<close>.
\<close>

theorem splice_spec_example:
  "ListSplice \<lparr>rows = ''abcde'', in_write_transaction = True\<rparr>
     [JSNumber 1, JSNumber 2, JSObject CHR ''x'', JSObject CHR ''y''] =
   \<lparr>list_after = \<lparr>rows = ''axyde'', in_write_transaction = True\<rparr>,
    returnObject = JSArray [JSObject CHR ''b'', JSObject CHR ''c''],
    exceptionObject = None\<rparr>"
  using splice_removes_then_inserts
    [of "\<lparr>rows = ''abcde'', in_write_transaction = True\<rparr>"
        "[JSNumber 1, JSNumber 2, JSObject CHR ''x'', JSObject CHR ''y'']" 1 2 "''xy''" 1 2]
  by (simp add: splice_start_spec_def splice_deleteCount_spec_def clamp_def)

text \<open>
  C1. The start position of \<^verbatim>\<open>splice\<close> is to be \<open>min(numeric(arg0), size)\<close> and the
  delete count \<open>clamp(numeric(arg1), 0, size - start)\<close> for every call. The source
  converts the number to \<^verbatim>\<open>long\<close> before it takes the minimum or maximum, and
  departs from these formulas for a number beyond the range of \<^verbatim>\<open>long\<close>. On
  \<^verbatim>\<open>[a, b, c, d, e]\<close>, \<^verbatim>\<open>splice(2^63)\<close> converts the number to \<open>- 2 ^ 63\<close>, starts at 0
  and removes all five elements, where the formula gives start 5 and removes nothing;
  \<^verbatim>\<open>splice(1, 2^64 + 4096)\<close> removes nothing, where the formula gives the delete
  count 4.
\<close>

theorem splice_number_beyond_long:
  "ListSplice \<lparr>rows = ''abcde'', in_write_transaction = True\<rparr> [JSNumber (2 ^ 63)] =
     \<lparr>list_after = \<lparr>rows = [], in_write_transaction = True\<rparr>,
      returnObject =
        JSArray [JSObject CHR ''a'', JSObject CHR ''b'', JSObject CHR ''c'',
                 JSObject CHR ''d'', JSObject CHR ''e''],
      exceptionObject = None\<rparr> \<and>
   splice_start_spec 5 (2 ^ 63) = 5 \<and>
   ListSplice \<lparr>rows = ''abcde'', in_write_transaction = True\<rparr>
       [JSNumber 1, JSNumber (2 ^ 64 + 4096)] =
     \<lparr>list_after = \<lparr>rows = ''abcde'', in_write_transaction = True\<rparr>,
      returnObject = JSArray [], exceptionObject = None\<rparr> \<and>
   splice_start_spec 5 1 = 1 \<and>
   splice_deleteCount_spec 5 1 (Some (2 ^ 64 + 4096)) = 4"
proof -
  have a: "ListSplice \<lparr>rows = ''abcde'', in_write_transaction = True\<rparr> [JSNumber (2 ^ 63)] =
     \<lparr>list_after = \<lparr>rows = [], in_write_transaction = True\<rparr>,
      returnObject =
        JSArray [JSObject CHR ''a'', JSObject CHR ''b'', JSObject CHR ''c'',
                 JSObject CHR ''d'', JSObject CHR ''e''],
      exceptionObject = None\<rparr>"
    by code_simp
  have b: "ListSplice \<lparr>rows = ''abcde'', in_write_transaction = True\<rparr>
       [JSNumber 1, JSNumber (2 ^ 64 + 4096)] =
     \<lparr>list_after = \<lparr>rows = ''abcde'', in_write_transaction = True\<rparr>,
      returnObject = JSArray [], exceptionObject = None\<rparr>"
    by code_simp
  have c: "splice_start_spec 5 (2 ^ 63) = 5" "splice_start_spec 5 1 = 1"
    "splice_deleteCount_spec 5 1 (Some (2 ^ 64 + 4096)) = 4"
    by (simp_all add: splice_start_spec_def splice_deleteCount_spec_def clamp_def)
  from a b c show ?thesis by (intro conjI)
qed

text \<open>
  C2. The key \<^verbatim>\<open>"length"\<close> is the length pseudo-property. A key is an index \<open>n\<close>
  exactly when it is the decimal representation of \<open>n\<close> printed without padding (the keys
  matching \<^verbatim>\<open>^(0|[1-9][0-9]*)$\<close>) and \<open>n\<close> does not overflow; such a key reads and
  writes element \<open>n\<close>. Every other key yields the not-handled answer on read (\<open>NULL\<close>)
  and on write (\<^verbatim>\<open>false\<close>), with no exception set and the list unchanged.
\<close>

theorem property_key_classification:
  "ListGetProperty list ''length'' = (JSNumber (int (length (rows list))), None) \<and>
   (RJSValidatedPositiveIndex key = Inr n \<longleftrightarrow> key = sprintf_zu n \<and> n \<le> LONG_MAX) \<and>
   (canonical_index key \<longleftrightarrow> key = sprintf_zu (decimal_value key)) \<and>
   (LONG_MAX < n \<longrightarrow> RJSValidatedPositiveIndex (sprintf_zu n) = Inl NotAnIndexKey) \<and>
   (RJSValidatedPositiveIndex key = Inr n \<longrightarrow>
      ListGetProperty list key =
        (if n < length (rows list) then (JSObject (rows list ! n), None)
         else (JSUndefined, None)) \<and>
      ListSetProperty_try list key v = List_set list v n) \<and>
   (key \<noteq> ''length'' \<and> (\<forall>n. RJSValidatedPositiveIndex key \<noteq> Inr n) \<longrightarrow>
      ListGetProperty list key = (NULL, None) \<and>
      ListSetProperty list key v = (list, False, None))"
proof -
  have len: "ListGetProperty list ''length'' = (JSNumber (int (length (rows list))), None)"
    by (simp add: ListGetProperty_def ListGetProperty_try_def JSValueMakeNumber_def
        List_size_def)
  have canon: "canonical_index key \<longleftrightarrow> key = sprintf_zu (decimal_value key)"
    using sprintf_zu_decimal_value [of key] canonical_index_sprintf_zu [of "decimal_value key"]
    by auto
  have idx: "ListGetProperty list key =
        (if n < length (rows list) then (JSObject (rows list ! n), None)
         else (JSUndefined, None)) \<and>
      ListSetProperty_try list key v = List_set list v n"
    if "RJSValidatedPositiveIndex key = Inr n"
  proof -
    from that have "key = sprintf_zu n" by (simp add: RJSValidatedPositiveIndex_Inr_iff)
    then have "key \<noteq> ''length''" by (simp add: sprintf_zu_not_length)
    with that show ?thesis
      by (simp add: ListGetProperty_def ListGetProperty_try_def ListSetProperty_try_def
          List_get_def RJSObjectCreate_def JSValueMakeUndefined_def)
  qed
  have other: "ListGetProperty list key = (NULL, None) \<and>
      ListSetProperty list key v = (list, False, None)"
    if "key \<noteq> ''length''" and "\<forall>n. RJSValidatedPositiveIndex key \<noteq> Inr n"
  proof -
    from that(2) have "RJSValidatedPositiveIndex key = Inl NotAnIndexKey"
      by (simp add: RJSValidatedPositiveIndex_def split: if_splits)
    with that(1) show ?thesis
      by (simp add: ListGetProperty_def ListGetProperty_try_def ListSetProperty_def
          ListSetProperty_try_def)
  qed
  have over: "LONG_MAX < n \<longrightarrow> RJSValidatedPositiveIndex (sprintf_zu n) = Inl NotAnIndexKey"
    by (simp add: RJSValidatedPositiveIndex_def decimal_value_sprintf_zu)
  from len canon over idx other show ?thesis
    by (simp only: RJSValidatedPositiveIndex_Inr_iff) blast
qed

text \<open>The key \<^verbatim>\<open>"007"\<close> has a leading zero: it is not handled.\<close>

theorem property_key_classification_witness:
  "ListGetProperty \<lparr>rows = ''ab'', in_write_transaction = True\<rparr> ''007'' = (NULL, None) \<and>
   ListSetProperty \<lparr>rows = ''ab'', in_write_transaction = True\<rparr> ''007'' (JSObject CHR ''x'') =
     (\<lparr>rows = ''ab'', in_write_transaction = True\<rparr>, False, None)"
proof -
  have "\<forall>n. RJSValidatedPositiveIndex ''007'' \<noteq> Inr n"
    by (simp add: RJSValidatedPositiveIndex_def canonical_index_def)
  with property_key_classification
      [of "\<lparr>rows = ''ab'', in_write_transaction = True\<rparr>" "''007''" 0 "JSObject CHR ''x''"]
  show ?thesis by simp
qed

text \<open>
  C3. For the key that is the decimal representation of an index \<open>i\<close> at or beyond the
  size of the list, in every list state: the read returns \<^verbatim>\<open>undefined\<close> and sets no
  exception, and the write of any value returns \<^verbatim>\<open>false\<close> with the exception
  \<open>OutOfRange\<close> set (the specification's \<open>OutOfRangeWrite\<close>), the list unchanged.
\<close>

theorem out_of_range_read_and_write:
  assumes "i \<le> LONG_MAX" and "List_size list \<le> i"
  shows "RJSValidatedPositiveIndex (sprintf_zu i) = Inr i \<and>
         ListGetProperty list (sprintf_zu i) = (JSUndefined, None) \<and>
         ListSetProperty list (sprintf_zu i) v = (list, False, Some OutOfRange)"
proof -
  have key: "RJSValidatedPositiveIndex (sprintf_zu i) = Inr i"
    using assms(1) by (rule RJSValidatedPositiveIndex_sprintf_zu)
  with assms(2) show ?thesis
    by (simp add: ListGetProperty_def ListGetProperty_try_def ListSetProperty_def
        ListSetProperty_try_def List_get_def List_set_def List_size_def
        JSValueMakeUndefined_def sprintf_zu_not_length)
qed

text \<open>Index 2 of a list of two elements, outside a write transaction.\<close>

theorem out_of_range_read_and_write_witness:
  "ListGetProperty \<lparr>rows = ''ab'', in_write_transaction = False\<rparr> ''2'' = (JSUndefined, None) \<and>
   ListSetProperty \<lparr>rows = ''ab'', in_write_transaction = False\<rparr> ''2'' (JSObject CHR ''x'') =
     (\<lparr>rows = ''ab'', in_write_transaction = False\<rparr>, False, Some OutOfRange)"
  using out_of_range_read_and_write
    [of 2 "\<lparr>rows = ''ab'', in_write_transaction = False\<rparr>" "JSObject CHR ''x''"]
  by (simp add: List_size_def LONG_MAX_def sprintf_zu.simps digit_char_def)

text \<open>
  C4. \<^verbatim>\<open>pop\<close> and \<^verbatim>\<open>shift\<close> with an argument fail with \<open>InvalidArgumentCount\<close>.
  On an empty list each checks the write transaction: outside one the call fails with
  \<open>WriteOutsideTransaction\<close>, inside one it returns \<^verbatim>\<open>undefined\<close>. On a non-empty
  list inside a write transaction \<^verbatim>\<open>pop\<close> returns the element at index \<open>size - 1\<close> and
  removes it, \<^verbatim>\<open>shift\<close> returns the element at index 0 and removes it, and the size
  decreases by exactly one. On a non-empty list outside a write transaction the removal
  fails with \<open>WriteOutsideTransaction\<close> and the list is unchanged.
\<close>

theorem pop_shift_contract:
  "(arguments \<noteq> [] \<longrightarrow>
      ListPop list arguments =
        \<lparr>list_after = list, returnObject = NULL,
         exceptionObject = Some InvalidArgumentCount\<rparr> \<and>
      ListShift list arguments =
        \<lparr>list_after = list, returnObject = NULL,
         exceptionObject = Some InvalidArgumentCount\<rparr>) \<and>
   (rows list = [] \<and> \<not> in_write_transaction list \<longrightarrow>
      ListPop list [] =
        \<lparr>list_after = list, returnObject = NULL,
         exceptionObject = Some WriteOutsideTransaction\<rparr> \<and>
      ListShift list [] =
        \<lparr>list_after = list, returnObject = NULL,
         exceptionObject = Some WriteOutsideTransaction\<rparr>) \<and>
   (rows list = [] \<and> in_write_transaction list \<longrightarrow>
      ListPop list [] =
        \<lparr>list_after = list, returnObject = JSUndefined, exceptionObject = None\<rparr> \<and>
      ListShift list [] =
        \<lparr>list_after = list, returnObject = JSUndefined, exceptionObject = None\<rparr>) \<and>
   (rows list \<noteq> [] \<and> in_write_transaction list \<longrightarrow>
      ListPop list [] =
        \<lparr>list_after = list\<lparr>rows := take (length (rows list) - 1) (rows list)\<rparr>,
         returnObject = JSObject (rows list ! (length (rows list) - 1)),
         exceptionObject = None\<rparr> \<and>
      ListShift list [] =
        \<lparr>list_after = list\<lparr>rows := drop 1 (rows list)\<rparr>,
         returnObject = JSObject (rows list ! 0),
         exceptionObject = None\<rparr> \<and>
      List_size (list_after (ListPop list [])) + 1 = List_size list \<and>
      List_size (list_after (ListShift list [])) + 1 = List_size list) \<and>
   (rows list \<noteq> [] \<and> \<not> in_write_transaction list \<longrightarrow>
      list_after (ListPop list []) = list \<and>
      exceptionObject (ListPop list []) = Some WriteOutsideTransaction \<and>
      list_after (ListShift list []) = list \<and>
      exceptionObject (ListShift list []) = Some WriteOutsideTransaction)"
proof -
  have arity: "ListPop list arguments =
        \<lparr>list_after = list, returnObject = NULL,
         exceptionObject = Some InvalidArgumentCount\<rparr> \<and>
      ListShift list arguments =
        \<lparr>list_after = list, returnObject = NULL,
         exceptionObject = Some InvalidArgumentCount\<rparr>" if "arguments \<noteq> []"
    using that
    by (simp add: ListPop_def ListShift_def RJSValidateArgumentCount_def RJSSetException_def)
  have empty: "rows list = [] \<Longrightarrow>
      ListPop list [] =
        (if in_write_transaction list
         then \<lparr>list_after = list, returnObject = JSUndefined, exceptionObject = None\<rparr>
         else \<lparr>list_after = list, returnObject = NULL,
               exceptionObject = Some WriteOutsideTransaction\<rparr>) \<and>
      ListShift list [] =
        (if in_write_transaction list
         then \<lparr>list_after = list, returnObject = JSUndefined, exceptionObject = None\<rparr>
         else \<lparr>list_after = list, returnObject = NULL,
               exceptionObject = Some WriteOutsideTransaction\<rparr>)"
    by (simp add: ListPop_def ListShift_def RJSValidateArgumentCount_def List_size_def verify_in_transaction_def
        RJSSetException_def RJSSetReturnUndefined_def JSValueMakeUndefined_def)
  have nonempty: "ListPop list [] =
        \<lparr>list_after = list\<lparr>rows := take (length (rows list) - 1) (rows list)\<rparr>,
         returnObject = JSObject (rows list ! (length (rows list) - 1)),
         exceptionObject = None\<rparr> \<and>
      ListShift list [] =
        \<lparr>list_after = list\<lparr>rows := drop 1 (rows list)\<rparr>,
         returnObject = JSObject (rows list ! 0),
         exceptionObject = None\<rparr>"
    if "rows list \<noteq> []" and "in_write_transaction list"
  proof -
    from that(1) have "length (rows list) - 1 < length (rows list)" by simp
    then have "\<not> length (rows list) \<le> length (rows list) - Suc 0" by simp
    with that show ?thesis
      by (simp add: ListPop_def ListShift_def RJSValidateArgumentCount_def List_size_def
          List_get_def List_remove_def RJSObjectCreate_def Let_def)
  qed
  have sizes: "List_size (list\<lparr>rows := take (length (rows list) - 1) (rows list)\<rparr>) + 1 =
        List_size list \<and>
      List_size (list\<lparr>rows := drop 1 (rows list)\<rparr>) + 1 = List_size list"
    if "rows list \<noteq> []"
    using that by (cases "rows list") (simp_all add: List_size_def)
  have outside: "list_after (ListPop list []) = list \<and>
      exceptionObject (ListPop list []) = Some WriteOutsideTransaction \<and>
      list_after (ListShift list []) = list \<and>
      exceptionObject (ListShift list []) = Some WriteOutsideTransaction"
    if "rows list \<noteq> []" and "\<not> in_write_transaction list"
  proof -
    from that(1) have "length (rows list) - 1 < length (rows list)" by simp
    then have "\<not> length (rows list) \<le> length (rows list) - Suc 0" by simp
    with that show ?thesis
      by (simp add: ListPop_def ListShift_def RJSValidateArgumentCount_def List_size_def
          List_get_def List_remove_def RJSSetException_def Let_def)
  qed
  have c1: "arguments \<noteq> [] \<longrightarrow>
      ListPop list arguments =
        \<lparr>list_after = list, returnObject = NULL,
         exceptionObject = Some InvalidArgumentCount\<rparr> \<and>
      ListShift list arguments =
        \<lparr>list_after = list, returnObject = NULL,
         exceptionObject = Some InvalidArgumentCount\<rparr>"
    using arity by blast
  have c2: "rows list = [] \<and> \<not> in_write_transaction list \<longrightarrow>
      ListPop list [] =
        \<lparr>list_after = list, returnObject = NULL,
         exceptionObject = Some WriteOutsideTransaction\<rparr> \<and>
      ListShift list [] =
        \<lparr>list_after = list, returnObject = NULL,
         exceptionObject = Some WriteOutsideTransaction\<rparr>"
    using empty by simp
  have c3: "rows list = [] \<and> in_write_transaction list \<longrightarrow>
      ListPop list [] =
        \<lparr>list_after = list, returnObject = JSUndefined, exceptionObject = None\<rparr> \<and>
      ListShift list [] =
        \<lparr>list_after = list, returnObject = JSUndefined, exceptionObject = None\<rparr>"
    using empty by simp
  have c4: "rows list \<noteq> [] \<and> in_write_transaction list \<longrightarrow>
      ListPop list [] =
        \<lparr>list_after = list\<lparr>rows := take (length (rows list) - 1) (rows list)\<rparr>,
         returnObject = JSObject (rows list ! (length (rows list) - 1)),
         exceptionObject = None\<rparr> \<and>
      ListShift list [] =
        \<lparr>list_after = list\<lparr>rows := drop 1 (rows list)\<rparr>,
         returnObject = JSObject (rows list ! 0),
         exceptionObject = None\<rparr> \<and>
      List_size (list_after (ListPop list [])) + 1 = List_size list \<and>
      List_size (list_after (ListShift list [])) + 1 = List_size list"
  proof (intro impI, elim conjE)
    assume h: "rows list \<noteq> []" "in_write_transaction list"
    note n = nonempty [OF h]
    from n sizes [OF h(1)] show "ListPop list [] =
        \<lparr>list_after = list\<lparr>rows := take (length (rows list) - 1) (rows list)\<rparr>,
         returnObject = JSObject (rows list ! (length (rows list) - 1)),
         exceptionObject = None\<rparr> \<and>
      ListShift list [] =
        \<lparr>list_after = list\<lparr>rows := drop 1 (rows list)\<rparr>,
         returnObject = JSObject (rows list ! 0),
         exceptionObject = None\<rparr> \<and>
      List_size (list_after (ListPop list [])) + 1 = List_size list \<and>
      List_size (list_after (ListShift list [])) + 1 = List_size list"
      by (simp only: outcome.simps simp_thms)
  qed
  have c5: "rows list \<noteq> [] \<and> \<not> in_write_transaction list \<longrightarrow>
      list_after (ListPop list []) = list \<and>
      exceptionObject (ListPop list []) = Some WriteOutsideTransaction \<and>
      list_after (ListShift list []) = list \<and>
      exceptionObject (ListShift list []) = Some WriteOutsideTransaction"
    using outside by blast
  from c1 c2 c3 c4 c5 show ?thesis by (intro conjI)
qed

text \<open>
  The examples of the specification: \<^verbatim>\<open>pop()\<close> on \<^verbatim>\<open>[a]\<close> returns \<^verbatim>\<open>a\<close> and
  leaves size 0; \<^verbatim>\<open>shift()\<close> on \<^verbatim>\<open>[a, b]\<close> returns \<^verbatim>\<open>a\<close> and leaves \<^verbatim>\<open>[b]\<close>;
  \<^verbatim>\<open>pop()\<close> on the empty list outside a write transaction fails.
\<close>

theorem pop_shift_contract_witness:
  "ListPop \<lparr>rows = ''a'', in_write_transaction = True\<rparr> [] =
     \<lparr>list_after = \<lparr>rows = [], in_write_transaction = True\<rparr>,
      returnObject = JSObject CHR ''a'', exceptionObject = None\<rparr> \<and>
   ListShift \<lparr>rows = ''ab'', in_write_transaction = True\<rparr> [] =
     \<lparr>list_after = \<lparr>rows = ''b'', in_write_transaction = True\<rparr>,
      returnObject = JSObject CHR ''a'', exceptionObject = None\<rparr> \<and>
   ListPop \<lparr>rows = ([] :: char list), in_write_transaction = False\<rparr> [] =
     \<lparr>list_after = \<lparr>rows = [], in_write_transaction = False\<rparr>,
      returnObject = NULL, exceptionObject = Some WriteOutsideTransaction\<rparr>"
  using pop_shift_contract [where list = "\<lparr>rows = ''a'', in_write_transaction = True\<rparr>"
      and arguments = "[]"]
    pop_shift_contract [where list = "\<lparr>rows = ''ab'', in_write_transaction = True\<rparr>"
      and arguments = "[]"]
    pop_shift_contract [where list = "\<lparr>rows = ([] :: char list), in_write_transaction = False\<rparr>"
      and arguments = "[]"]
  by simp

text \<open>
  C5. \<^verbatim>\<open>unshift\<close> inside a write transaction with \<open>n \<ge> 1\<close> convertible values: the
  loop inserts value \<open>i\<close> at position \<open>i\<close> for \<open>i = 0 .. n - 1\<close>, after which the list
  is the values in their order followed by the prior contents, and the call returns
  the new size; a call with no argument fails with \<open>InvalidArgumentCount\<close>.
\<close>

theorem unshift_prepends:
  assumes "in_write_transaction list" and "arguments = map JSObject vs" and "vs \<noteq> []"
  shows "ListUnshift_loop list arguments 0 = (None, list\<lparr>rows := vs @ rows list\<rparr>) \<and>
         ListUnshift list arguments =
           \<lparr>list_after = list\<lparr>rows := vs @ rows list\<rparr>,
            returnObject = JSNumber (int (length (rows list) + length vs)),
            exceptionObject = None\<rparr> \<and>
         ListUnshift list [] =
           \<lparr>list_after = list, returnObject = NULL,
            exceptionObject = Some InvalidArgumentCount\<rparr>"
proof -
  have loop: "ListUnshift_loop list arguments 0 = (None, list\<lparr>rows := vs @ rows list\<rparr>)"
    unfolding assms(2) using assms(1) by (simp add: ListUnshift_loop_ok)
  have "RJSValidateArgumentCountIsAtLeast (length arguments) 1 = Inr ()"
    using assms(2,3) by (cases vs) (simp_all add: RJSValidateArgumentCountIsAtLeast_def)
  then have "ListUnshift list arguments =
      RJSSetReturnNumber (list\<lparr>rows := vs @ rows list\<rparr>)
        (List_size (list\<lparr>rows := vs @ rows list\<rparr>))"
    by (simp only: ListUnshift_def loop sum.case prod.case option.case)
  then have main: "ListUnshift list arguments =
           \<lparr>list_after = list\<lparr>rows := vs @ rows list\<rparr>,
            returnObject = JSNumber (int (length (rows list) + length vs)),
            exceptionObject = None\<rparr>"
    by (simp add: RJSSetReturnNumber_def JSValueMakeNumber_def List_size_def)
  have "ListUnshift list [] =
           \<lparr>list_after = list, returnObject = NULL,
            exceptionObject = Some InvalidArgumentCount\<rparr>"
    by (simp add: ListUnshift_def RJSValidateArgumentCountIsAtLeast_def RJSSetException_def)
  with loop main show ?thesis by simp
qed

text \<open>
  The example of the specification: \<^verbatim>\<open>unshift([x, y])\<close> on \<^verbatim>\<open>[a, b]\<close> yields
  \<^verbatim>\<open>[x, y, a, b]\<close> and returns 4.
\<close>

theorem unshift_spec_example:
  "ListUnshift \<lparr>rows = ''ab'', in_write_transaction = True\<rparr>
     [JSObject CHR ''x'', JSObject CHR ''y''] =
   \<lparr>list_after = \<lparr>rows = ''xyab'', in_write_transaction = True\<rparr>,
    returnObject = JSNumber 4, exceptionObject = None\<rparr>"
  using unshift_prepends [of "\<lparr>rows = ''ab'', in_write_transaction = True\<rparr>"
      "[JSObject CHR ''x'', JSObject CHR ''y'']" "''xy''"]
  by simp

text \<open>
  C6. \<^verbatim>\<open>push\<close> inside a write transaction with a non-empty sequence of convertible
  values: the values are appended in input order, the element read at
  \<open>size_before + i\<close> afterwards is value \<open>i\<close>, and the call returns
  \<open>size_before + len(v)\<close>; a call with no argument fails with \<open>InvalidArgumentCount\<close>.
\<close>

theorem push_appends:
  assumes "in_write_transaction list" and "arguments = map JSObject vs" and "vs \<noteq> []"
  shows "ListPush list arguments =
           \<lparr>list_after = list\<lparr>rows := rows list @ vs\<rparr>,
            returnObject = JSNumber (int (length (rows list) + length vs)),
            exceptionObject = None\<rparr> \<and>
         (\<forall>i < length arguments.
            map_sum id RJSObjectCreate
              (List_get (list_after (ListPush list arguments)) (List_size list + i)) =
            Inr (arguments ! i)) \<and>
         ListPush list [] =
           \<lparr>list_after = list, returnObject = NULL,
            exceptionObject = Some InvalidArgumentCount\<rparr>"
proof -
  have loop: "ListPush_loop list arguments 0 = (None, list\<lparr>rows := rows list @ vs\<rparr>)"
    unfolding assms(2) using assms(1) by (simp add: ListPush_loop_ok)
  have "RJSValidateArgumentCountIsAtLeast (length arguments) 1 = Inr ()"
    using assms(2,3) by (cases vs) (simp_all add: RJSValidateArgumentCountIsAtLeast_def)
  then have "ListPush list arguments =
      RJSSetReturnNumber (list\<lparr>rows := rows list @ vs\<rparr>)
        (List_size (list\<lparr>rows := rows list @ vs\<rparr>))"
    by (simp only: ListPush_def loop sum.case prod.case option.case)
  then have main: "ListPush list arguments =
           \<lparr>list_after = list\<lparr>rows := rows list @ vs\<rparr>,
            returnObject = JSNumber (int (length (rows list) + length vs)),
            exceptionObject = None\<rparr>"
    by (simp add: RJSSetReturnNumber_def JSValueMakeNumber_def List_size_def)
  have get: "\<forall>i < length arguments.
            map_sum id RJSObjectCreate
              (List_get (list_after (ListPush list arguments)) (List_size list + i)) =
            Inr (arguments ! i)"
    unfolding main by (simp add: assms(2) List_get_def List_size_def RJSObjectCreate_def)
  have "ListPush list [] =
           \<lparr>list_after = list, returnObject = NULL,
            exceptionObject = Some InvalidArgumentCount\<rparr>"
    by (simp add: ListPush_def RJSValidateArgumentCountIsAtLeast_def RJSSetException_def)
  with main get show ?thesis by simp
qed

text \<open>
  Pushing \<^verbatim>\<open>x\<close> and \<^verbatim>\<open>y\<close> onto \<^verbatim>\<open>[a, b]\<close>.
\<close>

theorem push_appends_witness:
  "ListPush \<lparr>rows = ''ab'', in_write_transaction = True\<rparr>
     [JSObject CHR ''x'', JSObject CHR ''y''] =
   \<lparr>list_after = \<lparr>rows = ''abxy'', in_write_transaction = True\<rparr>,
    returnObject = JSNumber 4, exceptionObject = None\<rparr>"
  using push_appends [of "\<lparr>rows = ''ab'', in_write_transaction = True\<rparr>"
      "[JSObject CHR ''x'', JSObject CHR ''y'']" "''xy''"]
  by simp

text \<open>
  C7. In every list state the enumeration yields exactly the decimal strings of
  \<open>0, 1, ..., size - 1\<close> in ascending order, computed from the size the list has in
  that state; and reading \<^verbatim>\<open>"length"\<close> yields the number of keys enumerated.
\<close>

theorem keys_and_length:
  "ListPropertyNames list = map sprintf_zu [0..<List_size list] \<and>
   ListGetProperty list ''length'' = (JSNumber (int (length (ListPropertyNames list))), None)"
  by (simp add: ListPropertyNames_def ListPropertyNames_loop_eq ListGetProperty_def
      ListGetProperty_try_def JSValueMakeNumber_def Let_def)

text \<open>
  A list of three elements.
\<close>

theorem keys_and_length_witness:
  "ListPropertyNames \<lparr>rows = ''abc'', in_write_transaction = False\<rparr> = [''0'', ''1'', ''2''] \<and>
   ListGetProperty \<lparr>rows = ''abc'', in_write_transaction = False\<rparr> ''length'' =
     (JSNumber 3, None)"
  using keys_and_length [of "\<lparr>rows = ''abc'', in_write_transaction = False\<rparr>"]
  by (simp add: List_size_def upt_rec [of 0] upt_rec [of 1] upt_rec [of 2] sprintf_zu.simps digit_char_def)

text \<open>
  C8. Reading the key \<^verbatim>\<open>"length"\<close> returns the number of elements of the list, and
  every write to the key \<^verbatim>\<open>"length"\<close>, whatever the value written, returns
  \<^verbatim>\<open>false\<close> with the exception \<open>ReadOnlyProperty\<close> set and leaves the list as it was.
\<close>

theorem length_property_read_only:
  "ListGetProperty list ''length'' = (JSNumber (int (length (rows list))), None) \<and>
   ListSetProperty list ''length'' v = (list, False, Some ReadOnlyProperty)"
  by (simp add: ListGetProperty_def ListGetProperty_try_def ListSetProperty_def
      ListSetProperty_try_def JSValueMakeNumber_def List_size_def)

text \<open>
  C9. \<^verbatim>\<open>snapshot\<close> with an argument fails with \<open>InvalidArgumentCount\<close>. With no
  argument it returns a view created from the query of the list with the live flag
  \<^verbatim>\<open>false\<close>: read in any later state of the list, the view holds the rows the list
  had when the snapshot was taken, in the same order.
\<close>

theorem snapshot_is_static:
  "(arguments \<noteq> [] \<longrightarrow>
      ListStaticResults list arguments =
        \<lparr>list_after = list, returnObject = NULL,
         exceptionObject = Some InvalidArgumentCount\<rparr>) \<and>
   (\<exists>view. ListStaticResults list [] =
        \<lparr>list_after = list, returnObject = JSResults view, exceptionObject = None\<rparr> \<and>
      \<not> results_live view \<and>
      results_query view = get_query list \<and>
      (\<forall>later. Results_members view later = rows list))"
  by (cases arguments)
    (simp_all add: ListStaticResults_def RJSValidateArgumentCount_def RJSSetException_def
      RJSResultsCreate_def Results_members_def get_query_def)

text \<open>
  A snapshot of \<^verbatim>\<open>[a, b]\<close> still holds \<^verbatim>\<open>[a, b]\<close> when the list has become
  \<^verbatim>\<open>[a, b, c]\<close>.
\<close>

theorem snapshot_is_static_witness:
  "ListStaticResults \<lparr>rows = ''ab'', in_write_transaction = True\<rparr> [JSUndefined] =
     \<lparr>list_after = \<lparr>rows = ''ab'', in_write_transaction = True\<rparr>, returnObject = NULL,
      exceptionObject = Some InvalidArgumentCount\<rparr> \<and>
   (\<exists>view.
      returnObject (ListStaticResults \<lparr>rows = ''ab'', in_write_transaction = True\<rparr> []) =
        JSResults view \<and>
      Results_members view \<lparr>rows = ''abc'', in_write_transaction = True\<rparr> = ''ab'')"
  using snapshot_is_static [of "[JSUndefined]" "\<lparr>rows = ''ab'', in_write_transaction = True\<rparr>"]
  by fastforce

text \<open>
  C10. Whenever \<^verbatim>\<open>pop\<close> or \<^verbatim>\<open>shift\<close> sets an exception, the list is exactly as it
  was before the call. When the call succeeds on a non-empty list, the returned wrapper
  is built from the element read in the list as it was before the call, and the list
  afterwards is the result of one removal applied to that list.
\<close>

theorem pop_shift_atomic:
  "(exceptionObject (ListPop list arguments) \<noteq> None \<longrightarrow>
      list_after (ListPop list arguments) = list) \<and>
   (exceptionObject (ListShift list arguments) \<noteq> None \<longrightarrow>
      list_after (ListShift list arguments) = list) \<and>
   (exceptionObject (ListPop list arguments) = None \<and> rows list \<noteq> [] \<longrightarrow>
      List_get list (List_size list - 1) =
        Inr (rows list ! (List_size list - 1)) \<and>
      returnObject (ListPop list arguments) =
        RJSObjectCreate (rows list ! (List_size list - 1)) \<and>
      List_remove list (List_size list - 1) = Inr (list_after (ListPop list arguments))) \<and>
   (exceptionObject (ListShift list arguments) = None \<and> rows list \<noteq> [] \<longrightarrow>
      List_get list 0 = Inr (rows list ! 0) \<and>
      returnObject (ListShift list arguments) = RJSObjectCreate (rows list ! 0) \<and>
      List_remove list 0 = Inr (list_after (ListShift list arguments)))"
proof -
  have "rows list \<noteq> [] \<longrightarrow> \<not> length (rows list) \<le> length (rows list) - Suc 0"
    by (cases "rows list") simp_all
  then show ?thesis
    by (auto simp: ListPop_def ListShift_def RJSSetException_def RJSSetReturnUndefined_def
        Let_def List_size_def List_get_def
        split: sum.splits if_splits)
qed

text \<open>
  \<^verbatim>\<open>pop\<close> on \<^verbatim>\<open>[a, b]\<close> outside a write transaction.
\<close>

theorem pop_shift_atomic_witness:
  "list_after (ListPop \<lparr>rows = ''ab'', in_write_transaction = False\<rparr> []) =
     \<lparr>rows = ''ab'', in_write_transaction = False\<rparr> \<and>
   exceptionObject (ListPop \<lparr>rows = ''ab'', in_write_transaction = False\<rparr> []) =
     Some WriteOutsideTransaction"
proof -
  have "exceptionObject (ListPop \<lparr>rows = ''ab'', in_write_transaction = False\<rparr> []) =
     Some WriteOutsideTransaction"
    by (simp add: ListPop_def RJSValidateArgumentCount_def List_size_def List_get_def
        List_remove_def RJSSetException_def)
  with pop_shift_atomic [of "\<lparr>rows = ''ab'', in_write_transaction = False\<rparr>" "[]"]
  show ?thesis by simp
qed

end
